theory Spec2Isabelle
  imports Main "HOL-Library.Char_ord" "HOL-Library.List_Lexorder" "HOL-Library.Sublist"
begin

section \<open>Todo-Indicator: a shallow embedding of todo\_indicator.py\<close>

text \<open>
  The script is modelled under Python 3 semantics. Text is a \<^typ>\<open>string\<close>; the file
  system is a partial map from path names to files, where an unmapped path is a file that
  cannot be opened. Strings are compared by code point, lexicographically, as Python compares
  \<open>str\<close> values. A call that raises is the left injection of its result; the state left
  behind by a call that raised is not part of the model.
\<close>

subsection \<open>Library functions of the host language\<close>

abbreviation nl :: char where
  "nl \<equiv> CHR 0x0A"

text \<open>\<open>str.isspace\<close> on the code points below 256.\<close>

definition is_space :: "char \<Rightarrow> bool" where
  "is_space c \<longleftrightarrow>
     c \<in> set [CHR 0x09, CHR 0x0A, CHR 0x0B, CHR 0x0C, CHR 0x0D, CHR 0x1C, CHR 0x1D, CHR 0x1E,
              CHR 0x1F, CHR 0x20, CHR 0x85, CHR 0xA0]"

text \<open>\<open>s.strip()\<close>: leading and trailing whitespace removed.\<close>

definition strip :: "string \<Rightarrow> string" where
  "strip s = rev (dropWhile is_space (rev (dropWhile is_space s)))"

text \<open>\<open>s.split("\n")\<close>: the pieces between newlines; never the empty list.\<close>

fun split_nl :: "string \<Rightarrow> string list" where
  "split_nl [] = [[]]"
| "split_nl (c # cs) =
     (if c = nl then [] # split_nl cs
      else (case split_nl cs of [] \<Rightarrow> [[c]] | p # ps \<Rightarrow> (c # p) # ps))"

text \<open>
  The lines an iteration over a text file yields (\<open>fileinput.input\<close>): every line keeps its
  terminating newline; only the last line may lack one; an empty file has no line.
\<close>

fun readlines :: "string \<Rightarrow> string list" where
  "readlines [] = []"
| "readlines (c # cs) =
     (if c = nl then [c] # readlines cs
      else (case readlines cs of [] \<Rightarrow> [[c]] | l # ls \<Rightarrow> (c # l) # ls))"

text \<open>\<open>s.find(sub)\<close>: the lowest index at which \<open>sub\<close> occurs in \<open>s\<close>, or \<open>-1\<close>.\<close>

fun find_from :: "string \<Rightarrow> string \<Rightarrow> int \<Rightarrow> int" where
  "find_from sub [] i = (if sub = [] then i else - 1)"
| "find_from sub (c # cs) i = (if prefix sub (c # cs) then i else find_from sub cs (i + 1))"

definition find_py :: "string \<Rightarrow> string \<Rightarrow> int" where
  "find_py s sub = find_from sub s 0"

text \<open>
  \<open>print(s,)\<close>: under Python 3 the trailing comma is only a trailing comma of the argument
  list, so the call writes \<open>s\<close> followed by a newline to the current standard output.
\<close>

definition py_print :: "string \<Rightarrow> string \<Rightarrow> string" where
  "py_print s out = out @ s @ [nl]"

subsection \<open>Data model\<close>

datatype callback =
  check_off_handler_cb | edit_handler_cb | clear_completed_handler_cb | refresh_handler_cb
  | quit_handler_cb

datatype menu_entry =
  MenuItem (label: string) (sensitive: bool) (activate: "callback option")
  | SeparatorMenuItem

type_synonym menu = "menu_entry list"

text \<open>
  What reading an opened file gives: its decoded text, an input/output error, or bytes that
  do not decode.
\<close>

datatype read_result = Read_ok string | Read_IOError | Read_UnicodeDecodeError

text \<open>
  A file that can be opened: what reading it gives, and whether it can be replaced in its
  directory (renamed to a backup and created anew), as a rewrite in place needs.
\<close>

datatype file_state = File (reading: read_result) (rewritable: bool)

text \<open>
  The object's attributes, together with the file system it works on. \<open>ind\<close> is \<open>None\<close>
  until the indicator has been created; afterwards it holds the menus handed to
  \<open>set_menu\<close> so far, the latest first.
\<close>

record todo_indicator =
  text_editor :: string
  task_filter :: string
  list_updated_flag :: bool
  todo_filename :: string
  todo_list :: "string list"
  ind :: "menu list option"
  files :: "string \<rightharpoonup> file_state"

text \<open>
  How a call can fail: \<open>sys.exit\<close> after a message has been printed, or an exception that
  nothing catches.
\<close>

datatype failure =
  Exit (printed: string) (status: int) | Uncaught_IOError | Uncaught_UnicodeDecodeError

definition DEFAULT_EDITOR :: string where
  "DEFAULT_EDITOR = ''xdg-open''"

definition menu_items :: "(string \<times> callback) list" where
  "menu_items = [(''Edit todo.txt'', edit_handler_cb),
                 (''Clear completed'', clear_completed_handler_cb),
                 (''Refresh'', refresh_handler_cb),
                 (''Quit'', quit_handler_cb)]"

subsection \<open>The list loader\<close>

definition check_item_for_filter :: "string \<Rightarrow> string \<Rightarrow> bool" where
  "check_item_for_filter flt list_item = (if find_py list_item flt = - 1 then False else True)"

text \<open>The sort key: ten \<open>z\<close> in front of an item whose first two characters are \<open>x \<close>.\<close>

definition sort_key_of :: "string \<Rightarrow> string" where
  "sort_key_of a = (if take 2 a = ''x '' then replicate 10 CHR ''z'' @ a else a)"

definition load_list :: "string \<Rightarrow> string \<Rightarrow> string list" where
  "load_list flt content = sort_key sort_key_of (filter (check_item_for_filter flt) (split_nl content))"

text \<open>
  The \<open>try\<close> block encloses the open and the read: an \<open>IOError\<close> of either is handled by
  the message and \<open>sys.exit(1)\<close>; a decoding error of the read is no \<open>IOError\<close> and is not
  caught.
\<close>

definition load_todo_file :: "todo_indicator \<Rightarrow> failure + todo_indicator" where
  "load_todo_file self =
     (case files self (todo_filename self) of
        None \<Rightarrow> Inl (Exit (py_print (''Error opening file:'' @ [nl] @ todo_filename self) []) 1)
      | Some f \<Rightarrow>
          (case reading f of
             Read_ok content \<Rightarrow> Inr (self\<lparr>todo_list := load_list (task_filter self) content\<rparr>)
           | Read_IOError \<Rightarrow>
               Inl (Exit (py_print (''Error opening file:'' @ [nl] @ todo_filename self) []) 1)
           | Read_UnicodeDecodeError \<Rightarrow> Inl Uncaught_UnicodeDecodeError))"

subsection \<open>The menu builder\<close>

definition build_menu :: "string list \<Rightarrow> menu" where
  "build_menu todo =
     (if todo \<noteq> []
      then map (\<lambda>todo_item. MenuItem todo_item (\<not> take 2 todo_item = ''x '')
                  (Some check_off_handler_cb)) todo
      else [MenuItem ''[ No items. Click 'Edit' to add some! ]'' False None])
     @ [SeparatorMenuItem]
     @ map (\<lambda>(text, cb). MenuItem text True (Some cb)) menu_items"

definition set_menu :: "menu \<Rightarrow> menu list option \<Rightarrow> menu list option" where
  "set_menu m i = (case i of None \<Rightarrow> Some [m] | Some ms \<Rightarrow> Some (m # ms))"

definition build_indicator :: "todo_indicator \<Rightarrow> failure + todo_indicator" where
  "build_indicator self =
     (case load_todo_file self of
        Inl e \<Rightarrow> Inl e
      | Inr self' \<Rightarrow> Inr (self'\<lparr>ind := set_menu (build_menu (todo_list self')) (ind self')\<rparr>))"

subsection \<open>Watcher callback and poll tick\<close>

definition process_inotify_event :: "todo_indicator \<Rightarrow> string \<Rightarrow> todo_indicator" where
  "process_inotify_event self pathname =
     (if pathname = todo_filename self then self\<lparr>list_updated_flag := True\<rparr> else self)"

definition update_if_todo_file_changed :: "todo_indicator \<Rightarrow> failure + (bool \<times> todo_indicator)" where
  "update_if_todo_file_changed self =
     (if list_updated_flag self
      then (case build_indicator self of
              Inl e \<Rightarrow> Inl e
            | Inr self' \<Rightarrow> Inr (True, self'\<lparr>list_updated_flag := False\<rparr>))
      else Inr (True, self))"

subsection \<open>The line mutators\<close>

fun check_off_lines :: "string \<Rightarrow> string list \<Rightarrow> string \<Rightarrow> string" where
  "check_off_lines lbl [] out = out"
| "check_off_lines lbl (line # rest) out =
     (if strip line = strip lbl
      then check_off_lines lbl rest (py_print (''x '' @ line) out)
      else check_off_lines lbl rest (py_print line out))"

fun remove_lines :: "string list \<Rightarrow> string \<Rightarrow> string" where
  "remove_lines [] out = out"
| "remove_lines (line # rest) out =
     (if take 2 line = ''x '' then remove_lines rest out
      else remove_lines rest (py_print line out))"

text \<open>The new text of a file rewritten in place by the two loops.\<close>

definition check_off_text :: "string \<Rightarrow> string \<Rightarrow> string" where
  "check_off_text lbl content = check_off_lines lbl (readlines content) []"

definition remove_checked_text :: "string \<Rightarrow> string" where
  "remove_checked_text content = remove_lines (readlines content) []"

text \<open>
  \<open>fileinput.input(self.todo_filename, inplace=1)\<close> around a loop that writes \<open>body text\<close>
  for the text it reads: the file is renamed to a backup and opened, a new file is created
  under its name, and what the loop prints goes there. Nothing catches a failure of any of
  these steps. The new file is the program's own.
\<close>

definition rewrite_in_place :: "(string \<Rightarrow> string) \<Rightarrow> todo_indicator \<Rightarrow> failure + todo_indicator" where
  "rewrite_in_place body self =
     (case files self (todo_filename self) of
        None \<Rightarrow> Inl Uncaught_IOError
      | Some f \<Rightarrow>
          (if \<not> rewritable f then Inl Uncaught_IOError
           else (case reading f of
                   Read_ok content \<Rightarrow>
                     Inr (self\<lparr>files := (files self)
                            (todo_filename self \<mapsto> File (Read_ok (body content)) True)\<rparr>)
                 | Read_IOError \<Rightarrow> Inl Uncaught_IOError
                 | Read_UnicodeDecodeError \<Rightarrow> Inl Uncaught_UnicodeDecodeError)))"

definition check_off_item_with_label :: "todo_indicator \<Rightarrow> string \<Rightarrow> failure + todo_indicator" where
  "check_off_item_with_label self lbl = rewrite_in_place (check_off_text lbl) self"

definition remove_checked_off_items :: "todo_indicator \<Rightarrow> failure + todo_indicator" where
  "remove_checked_off_items self = rewrite_in_place remove_checked_text self"

definition check_off_handler :: "todo_indicator \<Rightarrow> string \<Rightarrow> failure + todo_indicator" where
  "check_off_handler self menu_item_label =
     (case check_off_item_with_label self menu_item_label of
        Inl e \<Rightarrow> Inl e
      | Inr self' \<Rightarrow> build_indicator self')"

definition clear_completed_handler :: "todo_indicator \<Rightarrow> failure + todo_indicator" where
  "clear_completed_handler self =
     (case remove_checked_off_items self of
        Inl e \<Rightarrow> Inl e
      | Inr self' \<Rightarrow> build_indicator self')"

definition refresh_handler :: "todo_indicator \<Rightarrow> failure + todo_indicator" where
  "refresh_handler self = build_indicator self"

text \<open>
  The constructor, given the absolute path of the todo file: the editor and the filter
  default when absent or empty, the flag starts unset, and the indicator is built once.
\<close>

definition init_task_filter :: "string option \<Rightarrow> string" where
  "init_task_filter task_filter_arg =
     (case task_filter_arg of None \<Rightarrow> [] | Some f \<Rightarrow> (if f \<noteq> [] then f else []))"

definition init_text_editor :: "string option \<Rightarrow> string" where
  "init_text_editor text_editor_arg =
     (case text_editor_arg of None \<Rightarrow> DEFAULT_EDITOR
      | Some e \<Rightarrow> (if e \<noteq> [] then e else DEFAULT_EDITOR))"

definition init :: "(string \<rightharpoonup> file_state) \<Rightarrow> string \<Rightarrow> string option \<Rightarrow> string option
    \<Rightarrow> failure + todo_indicator" where
  "init fs abs_filename text_editor_arg task_filter_arg =
     build_indicator
       \<lparr>text_editor = init_text_editor text_editor_arg,
        task_filter = init_task_filter task_filter_arg,
        list_updated_flag = False,
        todo_filename = abs_filename,
        todo_list = [],
        ind = None,
        files = fs\<rparr>"

text \<open>How many menus the indicator has been handed so far.\<close>

definition set_menu_calls :: "todo_indicator \<Rightarrow> nat" where
  "set_menu_calls self = (case ind self of None \<Rightarrow> 0 | Some ms \<Rightarrow> length ms)"

text \<open>An item is completed when its first two characters are \<open>x \<close>.\<close>

definition completed :: "string \<Rightarrow> bool" where
  "completed a \<longleftrightarrow> take 2 a = ''x ''"

text \<open>The menu the indicator shows: the one it was handed last.\<close>

definition shown_menu :: "todo_indicator \<Rightarrow> menu" where
  "shown_menu self = (case ind self of None \<Rightarrow> [] | Some [] \<Rightarrow> [] | Some (m # ms) \<Rightarrow> m)"

text \<open>
  A click on the todo item labelled \<open>lbl\<close> of the shown menu. The toolkit activates an item
  only when it is sensitive, and then calls the callback connected to it with the item,
  whose label the callback reads; a click on an insensitive item does nothing.
\<close>

definition click :: "todo_indicator \<Rightarrow> string \<Rightarrow> failure + todo_indicator" where
  "click self lbl =
     (if MenuItem lbl True (Some check_off_handler_cb) \<in> set (shown_menu self)
      then check_off_handler self lbl
      else Inr self)"

text \<open>
  The shown menu is up to date: the todo file has the text \<open>content\<close> and can be rewritten,
  and the list and the shown menu are the ones a rebuild makes of that text.
\<close>

definition menu_current :: "todo_indicator \<Rightarrow> string \<Rightarrow> bool" where
  "menu_current self content \<longleftrightarrow>
     files self (todo_filename self) = Some (File (Read_ok content) True)
     \<and> todo_list self = load_list (task_filter self) content
     \<and> shown_menu self = build_menu (todo_list self)"

subsection \<open>Concrete states used in the examples\<close>

definition example_self :: "file_state option \<Rightarrow> bool \<Rightarrow> todo_indicator" where
  "example_self f flag =
     \<lparr>text_editor = DEFAULT_EDITOR,
      task_filter = [],
      list_updated_flag = flag,
      todo_filename = ''/todo.txt'',
      todo_list = [],
      ind = Some [],
      files = (\<lambda>p. if p = ''/todo.txt'' then f else None)\<rparr>"

text \<open>The state the constructor returns for a todo file with the text \<open>content\<close>.\<close>

definition example_shown :: "string \<Rightarrow> todo_indicator" where
  "example_shown content =
     \<lparr>text_editor = DEFAULT_EDITOR,
      task_filter = [],
      list_updated_flag = False,
      todo_filename = ''/todo.txt'',
      todo_list = load_list [] content,
      ind = Some [build_menu (load_list [] content)],
      files = (\<lambda>p. if p = ''/todo.txt'' then Some (File (Read_ok content) True) else None)\<rparr>"

section \<open>Properties\<close>

subsection \<open>The watcher callback\<close>

text \<open>
  C5. An event whose path name is the watched file's path sets the dirty flag and changes
  nothing else; an event for any other path leaves the whole state as it was.
\<close>

theorem process_inotify_event_flag:
  "(pathname = todo_filename self \<longrightarrow>
      process_inotify_event self pathname = self\<lparr>list_updated_flag := True\<rparr>)
   \<and> (pathname \<noteq> todo_filename self \<longrightarrow> process_inotify_event self pathname = self)
   \<and> (list_updated_flag (process_inotify_event self pathname) \<longleftrightarrow>
        list_updated_flag self \<or> pathname = todo_filename self)"
  by (simp add: process_inotify_event_def)

theorem process_inotify_event_flag_witness:
  "''/todo.txt'' = todo_filename (example_self None False)
   \<and> list_updated_flag (process_inotify_event (example_self None False) ''/todo.txt'')
   \<and> ''/other.txt'' \<noteq> todo_filename (example_self None False)
   \<and> \<not> list_updated_flag (process_inotify_event (example_self None False) ''/other.txt'')"
  using process_inotify_event_flag [of "''/todo.txt''" "example_self None False"]
    process_inotify_event_flag [of "''/other.txt''" "example_self None False"]
  by (simp add: example_self_def)

subsection \<open>Loading\<close>

lemma load_todo_file_unopenable:
  "files self (todo_filename self) = None \<Longrightarrow>
     load_todo_file self
       = Inl (Exit (''Error opening file:'' @ [nl] @ todo_filename self @ [nl]) 1)"
  by (simp add: load_todo_file_def py_print_def)

lemma load_todo_file_read_error:
  "files self (todo_filename self) = Some (File Read_IOError w) \<Longrightarrow>
     load_todo_file self
       = Inl (Exit (''Error opening file:'' @ [nl] @ todo_filename self @ [nl]) 1)"
  by (simp add: load_todo_file_def py_print_def)

lemma load_todo_file_decode_error:
  "files self (todo_filename self) = Some (File Read_UnicodeDecodeError w) \<Longrightarrow>
     load_todo_file self = Inl Uncaught_UnicodeDecodeError"
  by (simp add: load_todo_file_def)

lemma load_todo_file_readable:
  "files self (todo_filename self) = Some (File (Read_ok content) w) \<Longrightarrow>
     load_todo_file self = Inr (self\<lparr>todo_list := load_list (task_filter self) content\<rparr>)"
  by (simp add: load_todo_file_def)

lemma file_cases:
  obtains (unopenable) "fo = None"
  | (read_error) w where "fo = Some (File Read_IOError w)"
  | (decode_error) w where "fo = Some (File Read_UnicodeDecodeError w)"
  | (readable) content w where "fo = Some (File (Read_ok content) w)"
proof (cases fo)
  case None
  then show ?thesis by (rule unopenable)
next
  case (Some f)
  obtain r w where f: "f = File r w" by (cases f)
  show ?thesis
  proof (cases r)
    case (Read_ok content)
    with Some f show ?thesis by (intro readable) simp
  next
    case Read_IOError
    with Some f show ?thesis by (intro read_error) simp
  next
    case Read_UnicodeDecodeError
    with Some f show ?thesis by (intro decode_error) simp
  qed
qed

lemma build_indicator_readable:
  "files self (todo_filename self) = Some (File (Read_ok content) w) \<Longrightarrow>
     build_indicator self
       = Inr (self\<lparr>todo_list := load_list (task_filter self) content,
                  ind := set_menu (build_menu (load_list (task_filter self) content)) (ind self)\<rparr>)"
  by (simp add: build_indicator_def load_todo_file_readable)

lemma rewrite_in_place_failure:
  "rewrite_in_place body self = Inl e \<Longrightarrow> e = Uncaught_IOError \<or> e = Uncaught_UnicodeDecodeError"
  by (auto simp: rewrite_in_place_def split: option.splits if_splits read_result.splits)

text \<open>
  C8, as the claim states it, fails for a file that opens and whose read then fails with an
  input/output error: the handler around the read prints the message and ends the process.
\<close>

theorem load_todo_file_read_error_counterexample:
  "files (example_self (Some (File Read_IOError True)) False)
      (todo_filename (example_self (Some (File Read_IOError True)) False))
     = Some (File Read_IOError True)
   \<and> load_todo_file (example_self (Some (File Read_IOError True)) False)
       = Inl (Exit (''Error opening file:'' @ [nl] @ ''/todo.txt'' @ [nl]) 1)"
  by (simp add: load_todo_file_def py_print_def example_self_def)

text \<open>
  C8, amended. The load prints the error message and ends the process with status 1 exactly
  when the todo file cannot be opened or the read of the opened file fails with an
  input/output error. This is the only error the program handles: a text that does not
  decode makes the load raise an error nothing catches, and the two rewrites of the file
  only ever fail with an uncaught error, never with a message and an exit. A load that
  opens the file and reads its text returns a state.
\<close>

theorem load_todo_file_exit:
  "((files self (todo_filename self) = None
       \<or> (\<exists>w. files self (todo_filename self) = Some (File Read_IOError w)))
      \<longleftrightarrow> load_todo_file self
            = Inl (Exit (''Error opening file:'' @ [nl] @ todo_filename self @ [nl]) 1))
   \<and> ((\<exists>w. files self (todo_filename self) = Some (File Read_UnicodeDecodeError w))
        \<longleftrightarrow> load_todo_file self = Inl Uncaught_UnicodeDecodeError)
   \<and> ((\<exists>content w. files self (todo_filename self) = Some (File (Read_ok content) w))
        \<longleftrightarrow> (\<exists>self'. load_todo_file self = Inr self'))
   \<and> (\<forall>e. load_todo_file self = Inl e \<longrightarrow>
          e = Exit (''Error opening file:'' @ [nl] @ todo_filename self @ [nl]) 1
          \<or> e = Uncaught_UnicodeDecodeError)
   \<and> (\<forall>e. check_off_item_with_label self lbl = Inl e \<longrightarrow>
          e = Uncaught_IOError \<or> e = Uncaught_UnicodeDecodeError)
   \<and> (\<forall>e. remove_checked_off_items self = Inl e \<longrightarrow>
          e = Uncaught_IOError \<or> e = Uncaught_UnicodeDecodeError)"
proof -
  have rw: "(\<forall>e. check_off_item_with_label self lbl = Inl e \<longrightarrow>
               e = Uncaught_IOError \<or> e = Uncaught_UnicodeDecodeError)
            \<and> (\<forall>e. remove_checked_off_items self = Inl e \<longrightarrow>
               e = Uncaught_IOError \<or> e = Uncaught_UnicodeDecodeError)"
    using rewrite_in_place_failure
    by (simp add: check_off_item_with_label_def remove_checked_off_items_def)
  show ?thesis
  proof (cases "files self (todo_filename self)" rule: file_cases)
    case unopenable
    then show ?thesis using rw by (simp add: load_todo_file_unopenable)
  next
    case (read_error w)
    then show ?thesis using rw by (simp add: load_todo_file_read_error)
  next
    case (decode_error w)
    then show ?thesis using rw by (simp add: load_todo_file_decode_error)
  next
    case (readable content w)
    then show ?thesis using rw by (simp add: load_todo_file_readable)
  qed
qed

theorem load_todo_file_exit_witness:
  "files (example_self None False) (todo_filename (example_self None False)) = None
   \<and> load_todo_file (example_self None False)
       = Inl (Exit (''Error opening file:'' @ [nl] @ ''/todo.txt'' @ [nl]) 1)
   \<and> files (example_self (Some (File (Read_ok ''a'') True)) False)
        (todo_filename (example_self (Some (File (Read_ok ''a'') True)) False))
       = Some (File (Read_ok ''a'') True)
   \<and> (\<exists>self'. load_todo_file (example_self (Some (File (Read_ok ''a'') True)) False) = Inr self')
   \<and> files (example_self (Some (File Read_UnicodeDecodeError True)) False)
        (todo_filename (example_self (Some (File Read_UnicodeDecodeError True)) False))
       = Some (File Read_UnicodeDecodeError True)
   \<and> load_todo_file (example_self (Some (File Read_UnicodeDecodeError True)) False)
       = Inl Uncaught_UnicodeDecodeError
   \<and> check_off_item_with_label (example_self (Some (File (Read_ok ''a'') False)) False) ''a''
       = Inl Uncaught_IOError"
proof -
  have h1: "files (example_self None False) (todo_filename (example_self None False)) = None"
    by (simp add: example_self_def)
  have h2: "files (example_self (Some (File (Read_ok ''a'') True)) False)
              (todo_filename (example_self (Some (File (Read_ok ''a'') True)) False))
              = Some (File (Read_ok ''a'') True)"
    by (simp add: example_self_def)
  have h3: "files (example_self (Some (File Read_UnicodeDecodeError True)) False)
              (todo_filename (example_self (Some (File Read_UnicodeDecodeError True)) False))
              = Some (File Read_UnicodeDecodeError True)"
    by (simp add: example_self_def)
  have h4: "\<exists>e. check_off_item_with_label
                  (example_self (Some (File (Read_ok ''a'') False)) False) ''a'' = Inl e"
    by (simp add: check_off_item_with_label_def rewrite_in_place_def example_self_def)
  have t: "todo_filename (example_self None False) = ''/todo.txt''"
    by (simp add: example_self_def)
  have c1: "load_todo_file (example_self None False)
              = Inl (Exit (''Error opening file:'' @ [nl] @ ''/todo.txt'' @ [nl]) 1)"
    using load_todo_file_exit [of "example_self None False" "''a''"] h1 t by simp
  have c2: "\<exists>self'. load_todo_file (example_self (Some (File (Read_ok ''a'') True)) False)
              = Inr self'"
    using load_todo_file_exit [of "example_self (Some (File (Read_ok ''a'') True)) False" "''a''"]
      h2 by blast
  have c3: "load_todo_file (example_self (Some (File Read_UnicodeDecodeError True)) False)
              = Inl Uncaught_UnicodeDecodeError"
    using load_todo_file_exit
      [of "example_self (Some (File Read_UnicodeDecodeError True)) False" "''a''"] h3 by blast
  have c4: "check_off_item_with_label (example_self (Some (File (Read_ok ''a'') False)) False) ''a''
              = Inl Uncaught_IOError"
    using h4 by (simp add: check_off_item_with_label_def rewrite_in_place_def example_self_def)
  show ?thesis
    using h1 h2 h3 c1 c2 c3 c4 by (intro conjI)
qed

subsection \<open>The poll tick\<close>

text \<open>
  C4, as the claim states it, fails when the todo file cannot be opened: with the flag set
  the tick ends the process inside the rebuild, so it neither clears the flag nor returns.
\<close>

theorem update_if_todo_file_changed_unreadable_counterexample:
  "update_if_todo_file_changed (example_self None True)
     = Inl (Exit (''Error opening file:'' @ [nl] @ ''/todo.txt'' @ [nl]) 1)"
  by (simp add: update_if_todo_file_changed_def build_indicator_def load_todo_file_def
      py_print_def example_self_def)

text \<open>
  C4, amended. While the todo file can be opened and its text read: a tick with the flag set
  performs one rebuild (the state of one \<open>build_indicator\<close> call, whose list is the one
  loaded from the text, and one more menu handed to the indicator), clears the flag and
  returns true. A tick with the flag unset returns true and leaves the state as it was,
  whatever the file. With the flag set, a file that cannot be opened or whose read fails
  with an input/output error makes the tick end the process with status 1, and a text that
  does not decode makes it raise an error nothing catches; in neither case is the flag
  cleared or a value returned.
\<close>

theorem update_if_todo_file_changed_tick:
  "(list_updated_flag self
      \<and> (\<exists>w. files self (todo_filename self) = Some (File (Read_ok content) w)) \<longrightarrow>
      (\<exists>self'. build_indicator self = Inr self'
         \<and> update_if_todo_file_changed self = Inr (True, self'\<lparr>list_updated_flag := False\<rparr>)
         \<and> todo_list self' = load_list (task_filter self) content
         \<and> set_menu_calls self' = set_menu_calls self + 1))
   \<and> (\<not> list_updated_flag self \<longrightarrow> update_if_todo_file_changed self = Inr (True, self))
   \<and> (list_updated_flag self
        \<and> (files self (todo_filename self) = None
             \<or> (\<exists>w. files self (todo_filename self) = Some (File Read_IOError w))) \<longrightarrow>
        update_if_todo_file_changed self
          = Inl (Exit (''Error opening file:'' @ [nl] @ todo_filename self @ [nl]) 1))
   \<and> (list_updated_flag self
        \<and> (\<exists>w. files self (todo_filename self) = Some (File Read_UnicodeDecodeError w)) \<longrightarrow>
        update_if_todo_file_changed self = Inl Uncaught_UnicodeDecodeError)"
proof (intro conjI impI)
  assume a: "list_updated_flag self
      \<and> (\<exists>w. files self (todo_filename self) = Some (File (Read_ok content) w))"
  then obtain w where c: "files self (todo_filename self) = Some (File (Read_ok content) w)"
    by auto
  show "\<exists>self'. build_indicator self = Inr self'
         \<and> update_if_todo_file_changed self = Inr (True, self'\<lparr>list_updated_flag := False\<rparr>)
         \<and> todo_list self' = load_list (task_filter self) content
         \<and> set_menu_calls self' = set_menu_calls self + 1"
    using a
    by (simp add: update_if_todo_file_changed_def build_indicator_readable [OF c]
        set_menu_calls_def set_menu_def split: option.split)
next
  assume "\<not> list_updated_flag self"
  then show "update_if_todo_file_changed self = Inr (True, self)"
    by (simp add: update_if_todo_file_changed_def)
next
  assume "list_updated_flag self
        \<and> (files self (todo_filename self) = None
             \<or> (\<exists>w. files self (todo_filename self) = Some (File Read_IOError w)))"
  then show "update_if_todo_file_changed self
               = Inl (Exit (''Error opening file:'' @ [nl] @ todo_filename self @ [nl]) 1)"
    by (auto simp: update_if_todo_file_changed_def build_indicator_def
        load_todo_file_unopenable load_todo_file_read_error)
next
  assume "list_updated_flag self
        \<and> (\<exists>w. files self (todo_filename self) = Some (File Read_UnicodeDecodeError w))"
  then show "update_if_todo_file_changed self = Inl Uncaught_UnicodeDecodeError"
    by (auto simp: update_if_todo_file_changed_def build_indicator_def
        load_todo_file_decode_error)
qed

theorem update_if_todo_file_changed_tick_witness:
  "list_updated_flag (example_self (Some (File (Read_ok ''a'') True)) True)
   \<and> files (example_self (Some (File (Read_ok ''a'') True)) True)
        (todo_filename (example_self (Some (File (Read_ok ''a'') True)) True))
       = Some (File (Read_ok ''a'') True)
   \<and> (\<exists>self'. update_if_todo_file_changed (example_self (Some (File (Read_ok ''a'') True)) True)
                  = Inr (True, self'\<lparr>list_updated_flag := False\<rparr>)
         \<and> todo_list self' = load_list [] ''a''
         \<and> set_menu_calls self' = 1)
   \<and> \<not> list_updated_flag (example_self (Some (File (Read_ok ''a'') True)) False)
   \<and> update_if_todo_file_changed (example_self (Some (File (Read_ok ''a'') True)) False)
       = Inr (True, example_self (Some (File (Read_ok ''a'') True)) False)
   \<and> list_updated_flag (example_self None True)
   \<and> files (example_self None True) (todo_filename (example_self None True)) = None
   \<and> (\<exists>msg. update_if_todo_file_changed (example_self None True) = Inl (Exit msg 1))
   \<and> list_updated_flag (example_self (Some (File Read_UnicodeDecodeError True)) True)
   \<and> files (example_self (Some (File Read_UnicodeDecodeError True)) True)
        (todo_filename (example_self (Some (File Read_UnicodeDecodeError True)) True))
       = Some (File Read_UnicodeDecodeError True)
   \<and> update_if_todo_file_changed (example_self (Some (File Read_UnicodeDecodeError True)) True)
       = Inl Uncaught_UnicodeDecodeError"
proof -
  let ?ok = "example_self (Some (File (Read_ok ''a'') True))"
  let ?bad = "example_self (Some (File Read_UnicodeDecodeError True)) True"
  have s: "set_menu_calls (?ok True) = 0" "task_filter (?ok True) = []"
    by (simp_all add: set_menu_calls_def example_self_def)
  have h1: "list_updated_flag (?ok True)
              \<and> (\<exists>w. files (?ok True) (todo_filename (?ok True)) = Some (File (Read_ok ''a'') w))"
    by (auto simp: example_self_def)
  have h1': "files (?ok True) (todo_filename (?ok True)) = Some (File (Read_ok ''a'') True)"
    by (simp add: example_self_def)
  have h2: "\<not> list_updated_flag (?ok False)"
    by (simp add: example_self_def)
  have h3: "list_updated_flag (example_self None True)
              \<and> (files (example_self None True) (todo_filename (example_self None True)) = None
                   \<or> (\<exists>w. files (example_self None True) (todo_filename (example_self None True))
                            = Some (File Read_IOError w)))"
    by (auto simp: example_self_def)
  have h3': "files (example_self None True) (todo_filename (example_self None True)) = None"
    by (simp add: example_self_def)
  have h4: "list_updated_flag ?bad
              \<and> (\<exists>w. files ?bad (todo_filename ?bad) = Some (File Read_UnicodeDecodeError w))"
    by (auto simp: example_self_def)
  have h4': "files ?bad (todo_filename ?bad) = Some (File Read_UnicodeDecodeError True)"
    by (simp add: example_self_def)
  have c1: "\<exists>self'. update_if_todo_file_changed (?ok True)
                  = Inr (True, self'\<lparr>list_updated_flag := False\<rparr>)
         \<and> todo_list self' = load_list [] ''a''
         \<and> set_menu_calls self' = 1"
    using update_if_todo_file_changed_tick [of "?ok True" "''a''"] h1 s by auto
  have c2: "update_if_todo_file_changed (?ok False) = Inr (True, ?ok False)"
    using update_if_todo_file_changed_tick [of "?ok False" "''a''"] h2 by blast
  have c3: "\<exists>msg. update_if_todo_file_changed (example_self None True) = Inl (Exit msg 1)"
    using update_if_todo_file_changed_tick [of "example_self None True" "''a''"] h3 by blast
  have c4: "update_if_todo_file_changed ?bad = Inl Uncaught_UnicodeDecodeError"
    using update_if_todo_file_changed_tick [of ?bad "''a''"] h4 by blast
  show ?thesis
    using h1 h1' h2 h3 h3' h4 h4' c1 c2 c3 c4 by (intro conjI) blast+
qed

subsection \<open>The substring filter\<close>

lemma find_from_minus_one:
  "0 \<le> i \<Longrightarrow> find_from sub s i = - 1 \<longleftrightarrow> \<not> sublist sub s"
proof (induction s arbitrary: i)
  case Nil
  then show ?case by auto
next
  case (Cons c cs)
  show ?case
  proof (cases "prefix sub (c # cs)")
    case True
    then have "sublist sub (c # cs)" by (rule prefix_imp_sublist)
    with True Cons.prems show ?thesis by simp
  next
    case False
    have "find_from sub (c # cs) i = find_from sub cs (i + 1)"
      using False by simp
    moreover have "find_from sub cs (i + 1) = - 1 \<longleftrightarrow> \<not> sublist sub cs"
      using Cons.prems by (intro Cons.IH) simp
    moreover have "sublist sub (c # cs) \<longleftrightarrow> sublist sub cs"
      using False by (simp add: sublist_Cons_right)
    ultimately show ?thesis by simp
  qed
qed

lemma check_item_for_filter_sublist:
  "check_item_for_filter flt item \<longleftrightarrow> sublist flt item"
  by (simp add: check_item_for_filter_def find_py_def find_from_minus_one)



subsection \<open>Splitting a text into lines\<close>

lemma split_nl_nonempty: "split_nl cs \<noteq> []"
  by (induction cs) (auto split: list.split)

lemma split_nl_append_nl: "split_nl (xs @ nl # ys) = split_nl xs @ split_nl ys"
  by (induction xs) (auto split: list.split simp: split_nl_nonempty)

lemma split_nl_no_nl: "nl \<notin> set l \<Longrightarrow> split_nl l = [l]"
  by (induction l) (auto split: list.split)

lemma split_nl_parts_no_nl: "p \<in> set (split_nl cs) \<Longrightarrow> nl \<notin> set p"
  by (induction cs arbitrary: p) (auto split: list.splits if_splits)

lemma readlines_split_nl:
  "readlines cs = map (\<lambda>p. p @ [nl]) (butlast (split_nl cs))
     @ (if last (split_nl cs) = [] then [] else [last (split_nl cs)])"
proof (induction cs)
  case Nil
  show ?case by simp
next
  case (Cons c cs)
  obtain p ps where sp: "split_nl cs = p # ps"
    using split_nl_nonempty [of cs] by (cases "split_nl cs") auto
  show ?case
  proof (cases "c = nl")
    case True
    then show ?thesis using Cons.IH sp by simp
  next
    case False
    show ?thesis
    proof (cases ps)
      case Nil
      then show ?thesis using False Cons.IH sp by (simp split: list.split)
    next
      case (Cons q qs)
      then show ?thesis using False Cons.IH sp by (simp split: list.split)
    qed
  qed
qed

lemma readlines_single: "nl \<notin> set item \<Longrightarrow> readlines (item @ [nl]) = [item @ [nl]]"
  by (induction item) (auto split: list.split)

lemma readlines_append_nl:
  "nl \<notin> set item \<Longrightarrow> readlines (item @ nl # rest) = (item @ [nl]) # readlines rest"
  by (induction item) (auto split: list.split)

lemma split_nl_item_line:
  assumes "item \<in> set (split_nl content)" and "item \<noteq> []"
  shows "item \<in> set (readlines content) \<or> item @ [nl] \<in> set (readlines content)"
proof -
  have ne: "split_nl content \<noteq> []" by (rule split_nl_nonempty)
  then have "split_nl content = butlast (split_nl content) @ [last (split_nl content)]"
    by simp
  then have "item \<in> set (butlast (split_nl content)) \<or> item = last (split_nl content)"
    using assms(1) by (metis Un_iff empty_iff insert_iff list.set(1) list.set(2) set_append)
  then show ?thesis
  proof
    assume "item \<in> set (butlast (split_nl content))"
    then have "item @ [nl] \<in> set (readlines content)"
      by (subst readlines_split_nl) simp
    then show ?thesis ..
  next
    assume "item = last (split_nl content)"
    then have "item \<in> set (readlines content)"
      using assms(2) by (subst readlines_split_nl) simp
    then show ?thesis ..
  qed
qed

lemma split_nl_concat_lines:
  "set (split_nl (concat (map (\<lambda>l. g l @ [nl]) ls)))
     = (\<Union>l\<in>set ls. set (split_nl (g l))) \<union> {[]}"
proof (induction ls)
  case Nil
  show ?case by simp
next
  case (Cons a ls)
  have "concat (map (\<lambda>l. g l @ [nl]) (a # ls)) = g a @ nl # concat (map (\<lambda>l. g l @ [nl]) ls)"
    by simp
  then have "set (split_nl (concat (map (\<lambda>l. g l @ [nl]) (a # ls))))
               = set (split_nl (g a)) \<union> set (split_nl (concat (map (\<lambda>l. g l @ [nl]) ls)))"
    by (simp only: split_nl_append_nl set_append)
  then show ?case using Cons.IH by auto
qed

subsection \<open>Whitespace trimming\<close>

lemma is_space_nl: "is_space nl"
  by (simp add: is_space_def)

lemma strip_snoc_nl: "strip (s @ [nl]) = strip s"
proof (cases "\<forall>c \<in> set s. is_space c")
  case True
  then have a: "dropWhile is_space s = []"
    by (simp only: dropWhile_eq_Nil_conv)
  have "\<forall>c \<in> set (s @ [nl]). is_space c"
    using True is_space_nl by simp
  then have b: "dropWhile is_space (s @ [nl]) = []"
    by (simp only: dropWhile_eq_Nil_conv)
  show ?thesis by (simp only: strip_def a b)
next
  case False
  then obtain c where "c \<in> set s" and "\<not> is_space c"
    by blast
  then have "dropWhile is_space (s @ [nl]) = dropWhile is_space s @ [nl]"
    by (rule dropWhile_append1)
  then show ?thesis by (simp add: strip_def is_space_nl)
qed

lemma not_space_x: "\<not> is_space CHR ''x''"
  by (simp add: is_space_def)

lemma strip_x_nonempty: "strip (''x '' @ s) \<noteq> []"
proof -
  have "dropWhile is_space (''x '' @ s) = ''x '' @ s"
    using not_space_x by simp
  then have "strip (''x '' @ s) = rev (dropWhile is_space (rev ('' '' @ s) @ ''x''))"
    by (simp add: strip_def)
  also have "\<dots> \<noteq> []"
    using not_space_x by (simp add: dropWhile_eq_Nil_conv)
  finally show ?thesis .
qed

lemma strip_nl: "strip [nl] = []"
  using is_space_nl by (simp add: strip_def)

subsection \<open>What the two rewriting loops write\<close>

lemma check_off_lines_concat:
  "check_off_lines lbl ls out
     = out @ concat (map (\<lambda>l. (if strip l = strip lbl then ''x '' @ l else l) @ [nl]) ls)"
  by (induction ls arbitrary: out) (simp_all add: py_print_def)

lemma remove_lines_concat:
  "remove_lines ls out = out @ concat (map (\<lambda>l. l @ [nl]) (filter (\<lambda>l. take 2 l \<noteq> ''x '') ls))"
  by (induction ls arbitrary: out) (simp_all add: py_print_def)

text \<open>
  C1. The claim does not hold of the code: \<open>print(line,)\<close> writes the line, which still ends
  with its own newline, and then a newline of its own. Checking off \<open>a\<close> in the two-line file
  \<open>a\<close>, \<open>b\<close> leaves a file in which an empty line follows each of the two lines.
\<close>

theorem check_off_text_inserts_newlines:
  "check_off_text ''a'' (''a'' @ [nl] @ ''b'' @ [nl]) = ''x a'' @ [nl, nl] @ ''b'' @ [nl, nl]"
  by code_simp

text \<open>
  C2. The claim does not hold of the code, for the same reason: clearing the completed items
  of the two-line file \<open>x a\<close>, \<open>b\<close> writes the kept line \<open>b\<close> back followed by an empty line.
\<close>

theorem remove_checked_text_inserts_newlines:
  "remove_checked_text (''x a'' @ [nl] @ ''b'' @ [nl]) = ''b'' @ [nl, nl]"
  by code_simp

subsection \<open>Order and length of the loaded list\<close>

text \<open>
  C3. The claim does not hold of the code: the key of a completed item starts with ten
  \<open>z\<close>, and an open item that sorts after that key (here one starting with a tilde) is
  placed after the completed item.
\<close>

theorem load_list_completed_before_open:
  "load_list (init_task_filter None) (''~a'' @ [nl] @ ''x b'') = [''x b'', ''~a'']"
  by code_simp

text \<open>
  C6. The claim does not hold of the code: without a filter every item passes
  \<open>check_item_for_filter\<close>, so the empty item after the final newline of the file is loaded.
\<close>

theorem load_list_keeps_empty_item:
  "load_list (init_task_filter None) (''a'' @ [nl]) = [[], ''a'']"
  by code_simp

subsection \<open>The lines of a checked-off text\<close>

lemma readlines_line_cases:
  assumes "l \<in> set (readlines content)"
  shows "\<exists>p \<in> set (split_nl content). l = p \<or> l = p @ [nl]"
proof -
  have ne: "split_nl content \<noteq> []" by (rule split_nl_nonempty)
  from assms have "l \<in> set (map (\<lambda>p. p @ [nl]) (butlast (split_nl content)))
                   \<or> l = last (split_nl content)"
    by (subst (asm) readlines_split_nl) (auto split: if_splits)
  then show ?thesis
  proof
    assume "l \<in> set (map (\<lambda>p. p @ [nl]) (butlast (split_nl content)))"
    then obtain p where "p \<in> set (butlast (split_nl content))" and "l = p @ [nl]"
      by auto
    then show ?thesis using in_set_butlastD by fastforce
  next
    assume "l = last (split_nl content)"
    then show ?thesis using ne last_in_set by blast
  qed
qed

lemma concat_readlines: "concat (readlines cs) = cs"
  by (induction cs) (auto split: list.split)

lemma readlines_eq_Nil: "readlines cs = [] \<longleftrightarrow> cs = []"
  by (cases cs) (auto split: list.split)

lemma split_nl_checked_piece:
  assumes "nl \<notin> set p"
  shows "set (split_nl (if strip p = strip lbl then ''x '' @ p else p))
           = {if strip p = strip lbl then ''x '' @ p else p}"
    and "set (split_nl (if strip (p @ [nl]) = strip lbl then ''x '' @ p @ [nl] else p @ [nl]))
           = {if strip p = strip lbl then ''x '' @ p else p, []}"
proof -
  let ?g = "if strip p = strip lbl then ''x '' @ p else p"
  have n: "nl \<notin> set ?g" using assms by simp
  then have one: "split_nl ?g = [?g]" by (rule split_nl_no_nl)
  then show "set (split_nl ?g) = {?g}" by simp
  have "split_nl (?g @ nl # []) = split_nl ?g @ split_nl []"
    by (rule split_nl_append_nl)
  then have two: "split_nl (?g @ [nl]) = [?g, []]" using one by simp
  have "(if strip (p @ [nl]) = strip lbl then ''x '' @ p @ [nl] else p @ [nl]) = ?g @ [nl]"
    by (simp add: strip_snoc_nl)
  then show "set (split_nl (if strip (p @ [nl]) = strip lbl then ''x '' @ p @ [nl] else p @ [nl]))
           = {?g, []}"
    using two by simp
qed

lemma check_off_text_concat:
  "check_off_text lbl content
     = concat (map (\<lambda>line. (if strip line = strip lbl then ''x '' @ line else line) @ [nl])
         (readlines content))"
  by (simp add: check_off_text_def check_off_lines_concat)

lemma split_nl_check_off_text:
  "set (split_nl (check_off_text lbl content))
     = (\<Union>line\<in>set (readlines content).
          set (split_nl (if strip line = strip lbl then ''x '' @ line else line))) \<union> {[]}"
  by (simp only: check_off_text_concat split_nl_concat_lines)

lemma checked_item_in_split:
  assumes "item \<in> set (split_nl content)" and "item \<noteq> []"
  shows "(if strip item = strip lbl then ''x '' @ item else item)
           \<in> set (split_nl (check_off_text lbl content))"
proof -
  have nonl: "nl \<notin> set item" using assms(1) by (rule split_nl_parts_no_nl)
  have "\<exists>line \<in> set (readlines content).
          (if strip item = strip lbl then ''x '' @ item else item)
            \<in> set (split_nl (if strip line = strip lbl then ''x '' @ line else line))"
    using split_nl_item_line [OF assms]
  proof
    assume l: "item \<in> set (readlines content)"
    show ?thesis
      by (rule bexI [OF _ l]) (simp only: split_nl_checked_piece(1) [OF nonl] singletonI)
  next
    assume l: "item @ [nl] \<in> set (readlines content)"
    show ?thesis
      by (rule bexI [OF _ l]) (simp only: split_nl_checked_piece(2) [OF nonl] insertI1)
  qed
  then show ?thesis
    by (simp only: split_nl_check_off_text) blast
qed

lemma split_of_checked_text:
  assumes "x \<in> set (split_nl (check_off_text lbl content))"
  shows "x = [] \<or> (\<exists>p \<in> set (split_nl content).
                      x = (if strip p = strip lbl then ''x '' @ p else p))"
proof (cases "x = []")
  case True
  then show ?thesis ..
next
  case False
  from assms obtain line where l: "line \<in> set (readlines content)"
    and x: "x \<in> set (split_nl (if strip line = strip lbl then ''x '' @ line else line))"
    using False by (simp only: split_nl_check_off_text) blast
  from l obtain p where p: "p \<in> set (split_nl content)" and lp: "line = p \<or> line = p @ [nl]"
    using readlines_line_cases by blast
  have nonl: "nl \<notin> set p" using p by (rule split_nl_parts_no_nl)
  from lp have "x = (if strip p = strip lbl then ''x '' @ p else p)"
  proof
    assume "line = p"
    with x show ?thesis by (simp only: split_nl_checked_piece(1) [OF nonl]) simp
  next
    assume "line = p @ [nl]"
    with x have "x \<in> {if strip p = strip lbl then ''x '' @ p else p, []}"
      by (simp only: split_nl_checked_piece(2) [OF nonl] append_assoc)
    with False show ?thesis by simp
  qed
  with p show ?thesis by blast
qed

lemma open_item_leaves_split:
  assumes "\<not> completed item" and "item \<noteq> []"
  shows "item \<notin> set (split_nl (check_off_text item content))"
proof
  assume "item \<in> set (split_nl (check_off_text item content))"
  then obtain p where "item = (if strip p = strip item then ''x '' @ p else p)"
    using split_of_checked_text assms(2) by blast
  then show False
    using assms(1) by (cases "strip p = strip item") (auto simp: completed_def)
qed

lemma check_off_text_longer:
  assumes "content \<noteq> []"
  shows "length content < length (check_off_text lbl content)"
proof -
  have "length (concat ls) + length ls
          \<le> length (concat (map (\<lambda>line. (if strip line = strip lbl then ''x '' @ line else line)
                @ [nl]) ls))" for ls :: "string list"
    by (induction ls) auto
  from this [of "readlines content"]
  have "length content + length (readlines content) \<le> length (check_off_text lbl content)"
    by (simp only: concat_readlines check_off_text_concat)
  moreover have "0 < length (readlines content)"
    using assms by (simp add: readlines_eq_Nil)
  ultimately show ?thesis by linarith
qed

lemma check_off_item_with_label_readable:
  "files self (todo_filename self) = Some (File (Read_ok content) True) \<Longrightarrow>
     check_off_item_with_label self lbl
       = Inr (self\<lparr>files := (files self)
                (todo_filename self \<mapsto> File (Read_ok (check_off_text lbl content)) True)\<rparr>)"
  by (simp add: check_off_item_with_label_def rewrite_in_place_def)

subsection \<open>Checking off twice\<close>

text \<open>
  C10. The check-off rewrites a todo file into the text in which every line whose trimmed
  text equals the trimmed label has \<open>x \<close> in front, with no test of how the line begins.
  So checking off an item of the file, and then checking off with a label that matches the
  resulting completed line, leaves a file with the line \<open>x x \<close> followed by the item, a file
  other than the one after the first check-off: the operation is not idempotent.
\<close>

theorem check_off_item_with_label_every_match:
  "(files self (todo_filename self) = Some (File (Read_ok content) True) \<longrightarrow>
      check_off_item_with_label self lbl
        = Inr (self\<lparr>files := (files self)
                 (todo_filename self \<mapsto> File (Read_ok (concat (map
                    (\<lambda>line. (if strip line = strip lbl then ''x '' @ line else line) @ [nl])
                    (readlines content)))) True)\<rparr>))
   \<and> (files self (todo_filename self) = Some (File (Read_ok content) True)
        \<and> item \<in> set (split_nl content) \<and> item \<noteq> []
        \<and> strip item = strip lbl \<and> strip (''x '' @ item) = strip lbl2 \<longrightarrow>
        (\<exists>s1 s2 c1 c2.
           check_off_item_with_label self lbl = Inr s1
           \<and> files s1 (todo_filename s1) = Some (File (Read_ok c1) True)
           \<and> ''x '' @ item \<in> set (split_nl c1)
           \<and> check_off_item_with_label s1 lbl2 = Inr s2
           \<and> files s2 (todo_filename s2) = Some (File (Read_ok c2) True)
           \<and> ''x x '' @ item \<in> set (split_nl c2)
           \<and> c2 \<noteq> c1))"
proof (intro conjI impI)
  assume "files self (todo_filename self) = Some (File (Read_ok content) True)"
  then show "check_off_item_with_label self lbl
        = Inr (self\<lparr>files := (files self)
                 (todo_filename self \<mapsto> File (Read_ok (concat (map
                    (\<lambda>line. (if strip line = strip lbl then ''x '' @ line else line) @ [nl])
                    (readlines content)))) True)\<rparr>)"
    by (simp only: check_off_item_with_label_readable check_off_text_concat)
next
  assume a: "files self (todo_filename self) = Some (File (Read_ok content) True)
        \<and> item \<in> set (split_nl content) \<and> item \<noteq> []
        \<and> strip item = strip lbl \<and> strip (''x '' @ item) = strip lbl2"
  let ?c1 = "check_off_text lbl content"
  let ?c2 = "check_off_text lbl2 ?c1"
  let ?s1 = "self\<lparr>files := (files self)(todo_filename self \<mapsto> File (Read_ok ?c1) True)\<rparr>"
  let ?s2 = "?s1\<lparr>files := (files ?s1)(todo_filename ?s1 \<mapsto> File (Read_ok ?c2) True)\<rparr>"
  have r1: "check_off_item_with_label self lbl = Inr ?s1"
    using a by (simp only: check_off_item_with_label_readable)
  have f1: "files ?s1 (todo_filename ?s1) = Some (File (Read_ok ?c1) True)"
    by simp
  have r2: "check_off_item_with_label ?s1 lbl2 = Inr ?s2"
    using f1 by (rule check_off_item_with_label_readable)
  have f2: "files ?s2 (todo_filename ?s2) = Some (File (Read_ok ?c2) True)"
    by simp
  have "(if strip item = strip lbl then ''x '' @ item else item) \<in> set (split_nl ?c1)"
    using a by (intro checked_item_in_split) simp_all
  then have i1: "''x '' @ item \<in> set (split_nl ?c1)"
    using a by simp
  have "(if strip (''x '' @ item) = strip lbl2 then ''x '' @ ''x '' @ item else ''x '' @ item)
          \<in> set (split_nl ?c2)"
    using i1 by (intro checked_item_in_split) simp_all
  then have i2: "''x x '' @ item \<in> set (split_nl ?c2)"
    using a by simp
  have "?c1 \<noteq> []"
    using i1 by auto
  then have "length ?c1 < length ?c2"
    by (rule check_off_text_longer)
  then have ne: "?c2 \<noteq> ?c1"
    by auto
  show "\<exists>s1 s2 c1 c2.
           check_off_item_with_label self lbl = Inr s1
           \<and> files s1 (todo_filename s1) = Some (File (Read_ok c1) True)
           \<and> ''x '' @ item \<in> set (split_nl c1)
           \<and> check_off_item_with_label s1 lbl2 = Inr s2
           \<and> files s2 (todo_filename s2) = Some (File (Read_ok c2) True)
           \<and> ''x x '' @ item \<in> set (split_nl c2)
           \<and> c2 \<noteq> c1"
    using r1 f1 i1 r2 f2 i2 ne by blast
qed

theorem check_off_item_with_label_every_match_witness:
  "files (example_shown (''a'' @ [nl])) (todo_filename (example_shown (''a'' @ [nl])))
     = Some (File (Read_ok (''a'' @ [nl])) True)
   \<and> ''a'' \<in> set (split_nl (''a'' @ [nl])) \<and> ''a'' \<noteq> []
   \<and> strip ''a'' = strip ''a'' \<and> strip (''x '' @ ''a'') = strip ''x a''
   \<and> (\<exists>s1 s2 c1 c2.
         check_off_item_with_label (example_shown (''a'' @ [nl])) ''a'' = Inr s1
         \<and> files s1 (todo_filename s1) = Some (File (Read_ok c1) True)
         \<and> check_off_item_with_label s1 ''x a'' = Inr s2
         \<and> files s2 (todo_filename s2) = Some (File (Read_ok c2) True)
         \<and> ''x x a'' \<in> set (split_nl c2)
         \<and> c2 \<noteq> c1)"
proof -
  have h: "files (example_shown (''a'' @ [nl])) (todo_filename (example_shown (''a'' @ [nl])))
             = Some (File (Read_ok (''a'' @ [nl])) True)
           \<and> ''a'' \<in> set (split_nl (''a'' @ [nl])) \<and> ''a'' \<noteq> []
           \<and> strip ''a'' = strip ''a'' \<and> strip (''x '' @ ''a'') = strip ''x a''"
    by (simp add: example_shown_def)
  have "\<exists>s1 s2 c1 c2.
         check_off_item_with_label (example_shown (''a'' @ [nl])) ''a'' = Inr s1
         \<and> files s1 (todo_filename s1) = Some (File (Read_ok c1) True)
         \<and> ''x '' @ ''a'' \<in> set (split_nl c1)
         \<and> check_off_item_with_label s1 ''x a'' = Inr s2
         \<and> files s2 (todo_filename s2) = Some (File (Read_ok c2) True)
         \<and> ''x x '' @ ''a'' \<in> set (split_nl c2)
         \<and> c2 \<noteq> c1"
    using check_off_item_with_label_every_match
      [of "example_shown (''a'' @ [nl])" "''a'' @ [nl]" "''a''" "''a''" "''x a''"] h
    by blast
  then have "\<exists>s1 s2 c1 c2.
         check_off_item_with_label (example_shown (''a'' @ [nl])) ''a'' = Inr s1
         \<and> files s1 (todo_filename s1) = Some (File (Read_ok c1) True)
         \<and> check_off_item_with_label s1 ''x a'' = Inr s2
         \<and> files s2 (todo_filename s2) = Some (File (Read_ok c2) True)
         \<and> ''x x a'' \<in> set (split_nl c2)
         \<and> c2 \<noteq> c1"
    by simp blast
  with h show ?thesis by blast
qed

subsection \<open>Clicking a todo item\<close>

lemma sublist_x_prefix: "sublist flt item \<Longrightarrow> sublist flt (''x '' @ item)"
proof -
  assume "sublist flt item"
  then obtain p q where "item = p @ flt @ q" by (auto simp: sublist_def)
  then have "''x '' @ item = (''x '' @ p) @ flt @ q" by simp
  then show ?thesis unfolding sublist_def by blast
qed

lemma set_load_list:
  "set (load_list flt content) = {a \<in> set (split_nl content). sublist flt a}"
  by (auto simp: load_list_def check_item_for_filter_sublist)

lemma build_menu_check_off_entry:
  "MenuItem t sens (Some check_off_handler_cb) \<in> set (build_menu todo)
     \<longleftrightarrow> t \<in> set todo \<and> sens = (\<not> completed t)"
  by (auto simp: build_menu_def menu_items_def completed_def)

lemma shown_menu_set_menu: "shown_menu (self\<lparr>ind := set_menu m i\<rparr>) = m"
  by (simp add: shown_menu_def set_menu_def split: option.split)

lemma check_off_handler_readable:
  assumes "files self (todo_filename self) = Some (File (Read_ok content) True)"
  shows "check_off_handler self lbl
           = Inr (self\<lparr>files := (files self)
                         (todo_filename self \<mapsto> File (Read_ok (check_off_text lbl content)) True),
                       todo_list := load_list (task_filter self) (check_off_text lbl content),
                       ind := set_menu (build_menu (load_list (task_filter self)
                                (check_off_text lbl content))) (ind self)\<rparr>)"
  using assms
  by (simp add: check_off_handler_def check_off_item_with_label_readable build_indicator_def
      load_todo_file_def)

lemma check_off_handler_not_rewritable:
  assumes "files self (todo_filename self) = Some (File r False)"
  shows "check_off_handler self lbl = Inl Uncaught_IOError"
  using assms
  by (simp add: check_off_handler_def check_off_item_with_label_def rewrite_in_place_def)

lemma init_example_shown:
  "init (\<lambda>p. if p = ''/todo.txt'' then Some (File (Read_ok content) True) else None)
      ''/todo.txt'' None None
     = Inr (example_shown content)"
  by (simp add: init_def build_indicator_def load_todo_file_def set_menu_def
      init_text_editor_def init_task_filter_def example_shown_def)

lemma menu_current_example_shown: "menu_current (example_shown content) content"
  by (simp add: menu_current_def example_shown_def shown_menu_def)

text \<open>
  C9, as the claim states it, fails for a completed item: the menu shows it insensitive, so
  a click on it runs no handler and the item is still completed afterwards.
\<close>

theorem click_completed_counterexample:
  "MenuItem ''x a'' False (Some check_off_handler_cb)
     \<in> set (shown_menu (example_shown (''x a'' @ [nl])))
   \<and> map_sum id todo_list (click (example_shown (''x a'' @ [nl])) ''x a'') = Inr [[], ''x a'']"
proof -
  have l: "load_list [] (''x a'' @ [nl]) = [[], ''x a'']"
    by code_simp
  have m: "shown_menu (example_shown (''x a'' @ [nl])) = build_menu [[], ''x a'']"
    unfolding example_shown_def shown_menu_def l by simp
  have t: "todo_list (example_shown (''x a'' @ [nl])) = [[], ''x a'']"
    unfolding example_shown_def l by simp
  have e: "MenuItem ''x a'' False (Some check_off_handler_cb) \<in> set (build_menu [[], ''x a''])"
    by (simp add: build_menu_check_off_entry completed_def)
  have n: "MenuItem ''x a'' True (Some check_off_handler_cb) \<notin> set (build_menu [[], ''x a''])"
    by (simp add: build_menu_check_off_entry completed_def)
  show ?thesis
    unfolding click_def m using e n t by simp
qed

text \<open>
  C9, amended. While the shown menu is up to date with a todo file that can be rewritten,
  a click on a non-empty item that the menu shows sensitive, which is then an item not
  completed, checks it off: after the click the item is no longer in the list, the item with
  \<open>x \<close> in front, a completed item, is in the list and shown insensitive, and the menu is up
  to date with the rewritten file. An item the menu shows insensitive is a completed item,
  and a click on it leaves the whole state as it was: no click marks an item as not
  completed. When the file cannot be rewritten, the click on a sensitive item raises an
  error nothing catches.
\<close>

theorem click_todo_item:
  "(menu_current self content
      \<and> MenuItem item True (Some check_off_handler_cb) \<in> set (shown_menu self)
      \<and> item \<noteq> [] \<longrightarrow>
      \<not> completed item
      \<and> (\<exists>self'. click self item = Inr self'
            \<and> item \<notin> set (todo_list self')
            \<and> ''x '' @ item \<in> set (todo_list self')
            \<and> completed (''x '' @ item)
            \<and> MenuItem (''x '' @ item) False (Some check_off_handler_cb) \<in> set (shown_menu self')
            \<and> menu_current self' (check_off_text item content)))
   \<and> (menu_current self content
        \<and> MenuItem item False (Some check_off_handler_cb) \<in> set (shown_menu self) \<longrightarrow>
        completed item \<and> click self item = Inr self)
   \<and> (MenuItem item True (Some check_off_handler_cb) \<in> set (shown_menu self)
        \<and> (\<exists>r. files self (todo_filename self) = Some (File r False)) \<longrightarrow>
        click self item = Inl Uncaught_IOError)"
proof (intro conjI; rule impI)
  assume a: "menu_current self content
      \<and> MenuItem item True (Some check_off_handler_cb) \<in> set (shown_menu self)
      \<and> item \<noteq> []"
  then have f: "files self (todo_filename self) = Some (File (Read_ok content) True)"
    and tl: "todo_list self = load_list (task_filter self) content"
    and sm: "shown_menu self = build_menu (todo_list self)"
    by (simp_all add: menu_current_def)
  from a sm have shown: "item \<in> set (todo_list self)" and opn: "\<not> completed item"
    by (simp_all add: build_menu_check_off_entry)
  from a have ne: "item \<noteq> []" by simp
  let ?new = "check_off_text item content"
  let ?self' = "self\<lparr>files := (files self)(todo_filename self \<mapsto> File (Read_ok ?new) True),
                      todo_list := load_list (task_filter self) ?new,
                      ind := set_menu (build_menu (load_list (task_filter self) ?new)) (ind self)\<rparr>"
  have c: "click self item = Inr ?self'"
    using a by (simp add: click_def check_off_handler_readable [OF f])
  have in_split: "item \<in> set (split_nl content)" and pass: "sublist (task_filter self) item"
    using shown tl by (simp_all add: set_load_list)
  have "(if strip item = strip item then ''x '' @ item else item) \<in> set (split_nl ?new)"
    using in_split ne by (rule checked_item_in_split)
  then have "''x '' @ item \<in> set (split_nl ?new)"
    by simp
  then have x_in: "''x '' @ item \<in> set (load_list (task_filter self) ?new)"
    using pass sublist_x_prefix by (simp add: set_load_list)
  have "item \<notin> set (split_nl ?new)"
    using opn ne by (rule open_item_leaves_split)
  then have gone: "item \<notin> set (load_list (task_filter self) ?new)"
    by (simp add: set_load_list)
  have x_done: "completed (''x '' @ item)"
    by (simp add: completed_def)
  have sm': "shown_menu ?self' = build_menu (load_list (task_filter self) ?new)"
    by (simp add: shown_menu_def set_menu_def split: option.split)
  have entry: "MenuItem (''x '' @ item) False (Some check_off_handler_cb) \<in> set (shown_menu ?self')"
    using x_in x_done by (simp only: sm' build_menu_check_off_entry) simp
  have cur: "menu_current ?self' ?new"
    using sm' by (simp add: menu_current_def)
  have "\<exists>self'. click self item = Inr self'
            \<and> item \<notin> set (todo_list self')
            \<and> ''x '' @ item \<in> set (todo_list self')
            \<and> completed (''x '' @ item)
            \<and> MenuItem (''x '' @ item) False (Some check_off_handler_cb) \<in> set (shown_menu self')
            \<and> menu_current self' (check_off_text item content)"
  proof (intro exI conjI)
    show "click self item = Inr ?self'" by (rule c)
    show "item \<notin> set (todo_list ?self')" using gone by simp
    show "''x '' @ item \<in> set (todo_list ?self')" using x_in by simp
    show "completed (''x '' @ item)" by (rule x_done)
    show "MenuItem (''x '' @ item) False (Some check_off_handler_cb) \<in> set (shown_menu ?self')"
      by (rule entry)
    show "menu_current ?self' (check_off_text item content)" by (rule cur)
  qed
  with opn show "\<not> completed item
      \<and> (\<exists>self'. click self item = Inr self'
            \<and> item \<notin> set (todo_list self')
            \<and> ''x '' @ item \<in> set (todo_list self')
            \<and> completed (''x '' @ item)
            \<and> MenuItem (''x '' @ item) False (Some check_off_handler_cb) \<in> set (shown_menu self')
            \<and> menu_current self' (check_off_text item content))"
    by (rule conjI)
next
  assume a: "menu_current self content
        \<and> MenuItem item False (Some check_off_handler_cb) \<in> set (shown_menu self)"
  then have sm: "shown_menu self = build_menu (todo_list self)"
    by (simp add: menu_current_def)
  from a sm have d: "completed item"
    by (simp add: build_menu_check_off_entry)
  then have "MenuItem item True (Some check_off_handler_cb) \<notin> set (shown_menu self)"
    by (simp add: sm build_menu_check_off_entry)
  then have "click self item = Inr self"
    by (simp add: click_def)
  with d show "completed item \<and> click self item = Inr self" by (rule conjI)
next
  assume a: "MenuItem item True (Some check_off_handler_cb) \<in> set (shown_menu self)
        \<and> (\<exists>r. files self (todo_filename self) = Some (File r False))"
  then obtain r where "files self (todo_filename self) = Some (File r False)" by blast
  then have "check_off_handler self item = Inl Uncaught_IOError"
    by (rule check_off_handler_not_rewritable)
  with a show "click self item = Inl Uncaught_IOError"
    by (simp add: click_def)
qed

theorem click_todo_item_witness:
  "menu_current (example_shown (''a'' @ [nl] @ ''x b'' @ [nl])) (''a'' @ [nl] @ ''x b'' @ [nl])
   \<and> MenuItem ''a'' True (Some check_off_handler_cb)
       \<in> set (shown_menu (example_shown (''a'' @ [nl] @ ''x b'' @ [nl])))
   \<and> ''a'' \<noteq> []
   \<and> (\<exists>self'. click (example_shown (''a'' @ [nl] @ ''x b'' @ [nl])) ''a'' = Inr self'
         \<and> ''a'' \<notin> set (todo_list self')
         \<and> ''x a'' \<in> set (todo_list self'))
   \<and> MenuItem ''x b'' False (Some check_off_handler_cb)
       \<in> set (shown_menu (example_shown (''a'' @ [nl] @ ''x b'' @ [nl])))
   \<and> click (example_shown (''a'' @ [nl] @ ''x b'' @ [nl])) ''x b''
       = Inr (example_shown (''a'' @ [nl] @ ''x b'' @ [nl]))"
proof -
  let ?c = "''a'' @ [nl] @ ''x b'' @ [nl]"
  have l: "load_list [] ?c = [[], ''a'', ''x b'']"
    by code_simp
  have m: "shown_menu (example_shown ?c) = build_menu [[], ''a'', ''x b'']"
    unfolding example_shown_def shown_menu_def l by simp
  have h1: "menu_current (example_shown ?c) ?c"
    by (rule menu_current_example_shown)
  have h2: "MenuItem ''a'' True (Some check_off_handler_cb) \<in> set (shown_menu (example_shown ?c))"
    unfolding m by (simp add: build_menu_check_off_entry completed_def)
  have h3: "''a'' \<noteq> []"
    by simp
  have h4: "MenuItem ''x b'' False (Some check_off_handler_cb)
              \<in> set (shown_menu (example_shown ?c))"
    unfolding m by (simp add: build_menu_check_off_entry completed_def)
  have c1: "\<exists>self'. click (example_shown ?c) ''a'' = Inr self'
         \<and> ''a'' \<notin> set (todo_list self')
         \<and> ''x '' @ ''a'' \<in> set (todo_list self')"
    using click_todo_item [of "example_shown ?c" ?c "''a''"] h1 h2 h3 by blast
  then have c1': "\<exists>self'. click (example_shown ?c) ''a'' = Inr self'
         \<and> ''a'' \<notin> set (todo_list self')
         \<and> ''x a'' \<in> set (todo_list self')"
    by simp
  have c2: "click (example_shown ?c) ''x b'' = Inr (example_shown ?c)"
    using click_todo_item [of "example_shown ?c" ?c "''x b''"] h1 h4 by blast
  show ?thesis
    using h1 h2 h3 h4 c1' c2 by (intro conjI)
qed

end
